theory Spec2Isabelle
  imports Main "HOL-Library.Log_Nat"
begin

section \<open>Strings\<close>

text \<open>
  Python's \<open>str\<close> is a sequence of code points. The model covers the code points
  U+0000 .. U+00FF: one \<open>char\<close> is one code point of that range, and \<open>isspace\<close> and
  \<open>lower_char\<close> are Python's \<open>str.isspace\<close> and \<open>str.lower\<close> on it (white space is
  U+0009..U+000D, U+001C..U+0020, U+0085 and U+00A0; the upper-case letters are
  U+0041..U+005A and U+00C0..U+00DE without U+00D7, each 32 below its lower-case form).
\<close>

definition isspace :: "char \<Rightarrow> bool" where
  "isspace c =
     (let n = (of_char c :: nat)
      in (9 \<le> n \<and> n \<le> 13) \<or> (28 \<le> n \<and> n \<le> 32) \<or> n = 133 \<or> n = 160)"

definition lower_char :: "char \<Rightarrow> char" where
  "lower_char c =
     (let n = (of_char c :: nat)
      in if (65 \<le> n \<and> n \<le> 90) \<or> (192 \<le> n \<and> n \<le> 222 \<and> n \<noteq> 215)
         then char_of (n + 32) else c)"

definition lower :: "string \<Rightarrow> string" where
  "lower s = map lower_char s"

definition strip :: "string \<Rightarrow> string" where
  "strip s = rev (dropWhile isspace (rev (dropWhile isspace s)))"

text \<open>\<open>startswith p s\<close>: \<open>s\<close> begins with \<open>p\<close>.\<close>

fun startswith :: "string \<Rightarrow> string \<Rightarrow> bool" where
  "startswith [] s = True"
| "startswith (a # p) [] = False"
| "startswith (a # p) (b # s) = (a = b \<and> startswith p s)"

text \<open>\<open>str_in u r\<close> is Python's \<open>u in r\<close> on strings: \<open>u\<close> occurs in \<open>r\<close> at some position.\<close>

fun str_in :: "string \<Rightarrow> string \<Rightarrow> bool" where
  "str_in u [] = (u = [])"
| "str_in u (c # cs) = (startswith u (c # cs) \<or> str_in u cs)"

text \<open>\<open>str_nat\<close> and \<open>str_int\<close> are Python's \<open>str\<close> on an integer (decimal digits).\<close>

fun str_nat :: "nat \<Rightarrow> string" where
  "str_nat n =
     (if n < 10 then [char_of (48 + n)]
      else str_nat (n div 10) @ [char_of (48 + n mod 10)])"

definition str_int :: "int \<Rightarrow> string" where
  "str_int i = (if i < 0 then CHR ''-'' # str_nat (nat (- i)) else str_nat (nat i))"

section \<open>Floating point\<close>

text \<open>
  Python's \<open>float\<close> is an IEEE 754 binary64 number. A finite one is modelled by the
  rational it denotes. \<open>round_double x\<close> is the binary64 number nearest to \<open>x\<close>, ties to
  the even significand, for \<open>x\<close> in the normal range (53 significant bits, no bound on
  the exponent in the model): with \<open>e = \<lfloor>log\<^sub>2 \<bar>x\<bar>\<rfloor> - 52\<close> the quotient \<open>\<bar>x\<bar> / 2\<^sup>e\<close> lies in
  \<open>[2\<^sup>5\<^sup>2, 2\<^sup>5\<^sup>3)\<close> and is rounded to an integer. The endpoint rounds a quotient
  \<open>have / total\<close> of two list lengths and its product with 100, which are 0 or lie
  well inside the normal range.
\<close>

definition round_half_even :: "rat \<Rightarrow> int" where
  "round_half_even x =
     (let f = \<lfloor>x\<rfloor>; d = x - of_int f
      in if d < 1 / 2 then f else if 1 / 2 < d then f + 1
         else if even f then f else f + 1)"

definition floor_log2 :: "rat \<Rightarrow> int" where
  "floor_log2 x =
     (let (p, q) = quotient_of x; d = bitlen p - bitlen q
      in if 2 powi d \<le> x then d else d - 1)"

definition round_double :: "rat \<Rightarrow> rat" where
  "round_double x =
     (if x = 0 then 0
      else let e = floor_log2 \<bar>x\<bar> - 52
           in of_int (round_half_even (x / 2 powi e)) * 2 powi e)"

text \<open>
  \<open>truediv a b\<close> is \<open>a / b\<close> on two Python ints with \<open>b \<noteq> 0\<close> (the correctly rounded
  quotient), \<open>float_mul\<close> is \<open>*\<close> on floats, and \<open>int_of_float\<close> is \<open>int(x)\<close>, which
  truncates towards zero.
\<close>

definition truediv :: "int \<Rightarrow> int \<Rightarrow> rat" where
  "truediv a b = round_double (of_int a / of_int b)"

definition float_mul :: "rat \<Rightarrow> rat \<Rightarrow> rat" where
  "float_mul x y = round_double (x * y)"

definition int_of_float :: "rat \<Rightarrow> int" where
  "int_of_float x = (if 0 \<le> x then \<lfloor>x\<rfloor> else \<lceil>x\<rceil>)"

section \<open>Data model\<close>

text \<open>The rows of the tables \<open>ingredients\<close> and \<open>recipes\<close> (models.py), with the columns
  the suggestion endpoint reads; a nullable column is an \<open>option\<close>.\<close>

record Ingredient =
  ingredient_id :: int
  ingredient_name :: string
  ingredient_category :: "string option"

record Recipe =
  recipe_id :: int
  recipe_name :: string
  recipe_description :: "string option"
  prep_time_minutes :: "int option"
  cook_time_minutes :: "int option"
  recipe_difficulty :: "string option"
  recipe_cuisine :: "string option"
  recipe_dietary_tags :: "string list option"
  ingredients :: "Ingredient list"

text \<open>The request and response shapes (schemas.py).\<close>

record IngredientInput =
  input_ingredients :: "string list"
  dietary_restrictions :: "string list"
  cuisine_preference :: "string option"

record RecipeSuggestion =
  suggestion_id :: int
  suggestion_name :: string
  suggestion_description :: "string option"
  ingredients_have :: "string list"
  ingredients_need :: "string list"
  match_percentage :: int
  total_time :: string
  difficulty :: "string option"
  cuisine :: "string option"
  dietary_tags :: "string list"

record RecipeSuggestionsResponse =
  suggestions :: "RecipeSuggestion list"
  message :: string
  total_recipes_searched :: nat

text \<open>The errors of the route: an \<open>HTTPException\<close> the handler raises, with its status
  code and detail, and the failure of the framework's validation of the request body.\<close>

datatype error = HTTPException int string | RequestValidationError

section \<open>Recipe properties (models.py)\<close>

definition total_time_minutes :: "Recipe \<Rightarrow> int" where
  "total_time_minutes r =
     (let prep = (case prep_time_minutes r of None \<Rightarrow> 0 | Some p \<Rightarrow> p);
          cook = (case cook_time_minutes r of None \<Rightarrow> 0 | Some c \<Rightarrow> c)
      in prep + cook)"

definition total_time_display :: "Recipe \<Rightarrow> string" where
  "total_time_display r =
     (let total = total_time_minutes r
      in if 60 \<le> total
         then (let hours = total div 60; mins = total mod 60
               in if mins \<noteq> 0 then str_int hours @ ''h '' @ str_int mins @ ''m''
                  else str_int hours @ ''h'')
         else str_int total @ '' minutes'')"

section \<open>The suggestion endpoint (main.py, \<open>suggest_recipes\<close>)\<close>

text \<open>\<open>any(user_ing in recipe_ing or recipe_ing in user_ing for user_ing in user_ingredients)\<close>\<close>

definition has_ingredient :: "string list \<Rightarrow> string \<Rightarrow> bool" where
  "has_ingredient user_ingredients recipe_ing =
     list_ex (\<lambda>user_ing. str_in user_ing recipe_ing \<or> str_in recipe_ing user_ing)
       user_ingredients"

text \<open>The inner loop: every name is appended to one of the two lists, which start empty.\<close>

definition split_step :: "string list \<Rightarrow> string \<Rightarrow> string list \<times> string list
    \<Rightarrow> string list \<times> string list" where
  "split_step user_ingredients recipe_ing acc =
     (case acc of (have, need) \<Rightarrow>
        if has_ingredient user_ingredients recipe_ing
        then (have @ [recipe_ing], need)
        else (have, need @ [recipe_ing]))"

definition split_ingredients :: "string list \<Rightarrow> string list \<Rightarrow> string list \<times> string list" where
  "split_ingredients user_ingredients names =
     fold (split_step user_ingredients) names ([], [])"

definition recipe_ingredients_names :: "Recipe \<Rightarrow> string list" where
  "recipe_ingredients_names recipe = map (\<lambda>ing. lower (ingredient_name ing)) (ingredients recipe)"

text \<open>\<open>int((len(ingredients_have) / total_ingredients) * 100)\<close>, or 0 without ingredients.\<close>

definition match_pct :: "nat \<Rightarrow> nat \<Rightarrow> int" where
  "match_pct n_have total_ingredients =
     (if 0 < total_ingredients
      then int_of_float (float_mul (truediv (int n_have) (int total_ingredients)) 100)
      else 0)"

text \<open>The suggestion the loop body builds for one recipe.\<close>

definition make_suggestion :: "string list \<Rightarrow> Recipe \<Rightarrow> RecipeSuggestion" where
  "make_suggestion user_ingredients recipe =
     (let names = recipe_ingredients_names recipe;
          (have, need) = split_ingredients user_ingredients names
      in \<lparr> suggestion_id = recipe_id recipe,
           suggestion_name = recipe_name recipe,
           suggestion_description = recipe_description recipe,
           ingredients_have = have,
           ingredients_need = need,
           match_percentage = match_pct (length have) (length names),
           total_time = total_time_display recipe,
           difficulty = recipe_difficulty recipe,
           cuisine = recipe_cuisine recipe,
           dietary_tags = (case recipe_dietary_tags recipe of None \<Rightarrow> [] | Some ts \<Rightarrow> ts) \<rparr>)"

text \<open>The outer loop: a recipe's suggestion is appended when its percentage is positive
  (or when there is no user ingredient).\<close>

definition match_step :: "string list \<Rightarrow> Recipe \<Rightarrow> RecipeSuggestion list \<Rightarrow> RecipeSuggestion list" where
  "match_step user_ingredients recipe acc =
     (let s = make_suggestion user_ingredients recipe
      in if 0 < match_percentage s \<or> length user_ingredients = 0 then acc @ [s] else acc)"

definition database_matching :: "string list \<Rightarrow> Recipe list \<Rightarrow> RecipeSuggestion list" where
  "database_matching user_ingredients recipes = fold (match_step user_ingredients) recipes []"

text \<open>\<open>list.sort(key=..., reverse=True)\<close>: a stable sort into non-increasing keys (the list
  is reversed, sorted stably into non-decreasing keys, and reversed again).\<close>

definition sort_reverse :: "('a \<Rightarrow> int) \<Rightarrow> 'a list \<Rightarrow> 'a list" where
  "sort_reverse key xs = rev (sort_key key (rev xs))"

text \<open>\<open>[ing.lower().strip() for ing in input_data.ingredients]\<close>\<close>

definition normalized_ingredients :: "IngredientInput \<Rightarrow> string list" where
  "normalized_ingredients input_data =
     map (\<lambda>ing. strip (lower ing)) (input_ingredients input_data)"

text \<open>
  The endpoint. \<open>recipes\<close> is the list \<open>query.all()\<close> returns: the rows of the catalogue
  that pass the cuisine and dietary filters of the request, which the database applies.
  A raised \<open>HTTPException\<close> is the result \<open>Inl\<close>.
\<close>

definition suggest_recipes :: "IngredientInput \<Rightarrow> bool \<Rightarrow> Recipe list
    \<Rightarrow> error + RecipeSuggestionsResponse" where
  "suggest_recipes input_data use_ai recipes =
     (let user_ingredients = normalized_ingredients input_data
      in if user_ingredients = []
         then Inl (HTTPException 400 ''Please provide at least one ingredient'')
         else
           (let found = take 10 (sort_reverse match_percentage
                                   (database_matching user_ingredients recipes))
            in Inr \<lparr> suggestions = found,
                     message = ''Found '' @ str_nat (length found) @ '' recipes matching your ''
                               @ str_nat (length user_ingredients) @ '' ingredients!'',
                     total_recipes_searched = length recipes \<rparr>))"

text \<open>
  The route \<open>POST /api/recipes/suggest\<close>. The handler's parameter \<open>input_data\<close> has the
  type \<open>IngredientInput\<close>, so the framework (FastAPI) validates the JSON body against
  that schema before it calls \<open>suggest_recipes\<close>. \<open>RequestBody\<close> is the body as sent, with
  each field present (\<open>Some\<close>) or missing (\<open>None\<close>); fields of a wrong JSON type are not
  modelled. \<open>ingredients\<close> has no default in schemas.py: a body without it fails the
  validation, the handler is not called, and the framework answers with the status 422.
  The other two fields have the defaults \<open>[]\<close> and \<open>None\<close>.
\<close>

record RequestBody =
  body_ingredients :: "string list option"
  body_dietary_restrictions :: "string list option"
  body_cuisine_preference :: "string option"

definition validate_IngredientInput :: "RequestBody \<Rightarrow> error + IngredientInput" where
  "validate_IngredientInput body =
     (case body_ingredients body of
        None \<Rightarrow> Inl RequestValidationError
      | Some xs \<Rightarrow>
          Inr \<lparr> input_ingredients = xs,
                dietary_restrictions =
                  (case body_dietary_restrictions body of None \<Rightarrow> [] | Some ds \<Rightarrow> ds),
                cuisine_preference = body_cuisine_preference body \<rparr>)"

definition post_suggest :: "RequestBody \<Rightarrow> bool \<Rightarrow> Recipe list
    \<Rightarrow> error + RecipeSuggestionsResponse" where
  "post_suggest body use_ai recipes =
     (case validate_IngredientInput body of
        Inl e \<Rightarrow> Inl e
      | Inr input_data \<Rightarrow> suggest_recipes input_data use_ai recipes)"

text \<open>The HTTP status of an error response.\<close>

definition response_status :: "error \<Rightarrow> int" where
  "response_status e =
     (case e of HTTPException status_code detail \<Rightarrow> status_code
              | RequestValidationError \<Rightarrow> 422)"

section \<open>Example data\<close>

text \<open>A row without optional columns, with the given id, name and ingredient names.\<close>

definition plain_recipe :: "int \<Rightarrow> string \<Rightarrow> string list \<Rightarrow> Recipe" where
  "plain_recipe i n names =
     \<lparr> recipe_id = i, recipe_name = n, recipe_description = None,
       prep_time_minutes = None, cook_time_minutes = None,
       recipe_difficulty = None, recipe_cuisine = None, recipe_dietary_tags = None,
       ingredients = map (\<lambda>(j, x). \<lparr> ingredient_id = int j, ingredient_name = x,
                                       ingredient_category = None \<rparr>)
                         (enumerate 1 names) \<rparr>"

definition request :: "string list \<Rightarrow> IngredientInput" where
  "request xs = \<lparr> input_ingredients = xs, dietary_restrictions = [], cuisine_preference = None \<rparr>"

text \<open>The recipe "Thai Green Curry" of seed\_data.py (its description and instructions
  left out), with the ingredient names as the seed script stores them.\<close>

definition thai_green_curry :: Recipe where
  "thai_green_curry =
     \<lparr> recipe_id = 2, recipe_name = ''Thai Green Curry'', recipe_description = None,
       prep_time_minutes = Some 15, cook_time_minutes = Some 25,
       recipe_difficulty = Some ''Easy'', recipe_cuisine = Some ''Thai'',
       recipe_dietary_tags = Some [''gluten-free''],
       ingredients = map (\<lambda>(j, x). \<lparr> ingredient_id = int j, ingredient_name = x,
                                       ingredient_category = None \<rparr>)
         (enumerate 1 [''coconut milk'', ''green curry paste'', ''chicken breast'',
            ''bamboo shoots'', ''thai basil'', ''fish sauce'', ''palm sugar'', ''lime leaves'',
            ''vegetable oil'', ''jasmine rice'']) \<rparr>"

text \<open>A recipe of 50 ingredients: 29 names made of the letter a, 21 of the letter b.\<close>

definition fifty_names :: "string list" where
  "fifty_names = map (\<lambda>n. replicate (Suc n) CHR ''a'') [0..<29]
               @ map (\<lambda>n. replicate (Suc n) CHR ''b'') [0..<21]"

definition fifty_recipe :: Recipe where
  "fifty_recipe = plain_recipe 1 ''Feast'' fifty_names"

text \<open>Eleven recipes of one ingredient each.\<close>

definition eleven_recipes :: "Recipe list" where
  "eleven_recipes = map (\<lambda>i. plain_recipe (int i) ''Dish'' [''salt'']) [1..<12]"

text \<open>A recipe whose ingredient names are stored with capitals.\<close>

definition brine :: Recipe where
  "brine = plain_recipe 7 ''Brine'' [''Sea Salt'', ''Water'']"

text \<open>A recipe with a stored name that ends in a space.\<close>

definition salted :: Recipe where
  "salted = plain_recipe 5 ''Salted'' [''Salt '', ''Sea Salt'']"

section \<open>String containment\<close>

lemma startswith_iff: "startswith p s \<longleftrightarrow> (\<exists>ss. s = p @ ss)"
  by (induction p s rule: startswith.induct) auto

lemma str_in_iff: "str_in u r \<longleftrightarrow> (\<exists>ps ss. r = ps @ u @ ss)"
proof (induction r)
  case Nil
  then show ?case by auto
next
  case (Cons c cs)
  show ?case
  proof
    assume "str_in u (c # cs)"
    then consider "startswith u (c # cs)" | "str_in u cs" by auto
    then show "\<exists>ps ss. c # cs = ps @ u @ ss"
    proof cases
      case 1
      then obtain ss where "c # cs = u @ ss" by (auto simp: startswith_iff)
      then have "c # cs = [] @ u @ ss" by simp
      then show ?thesis by blast
    next
      case 2
      then obtain ps ss where "cs = ps @ u @ ss" using Cons.IH by blast
      then have "c # cs = (c # ps) @ u @ ss" by simp
      then show ?thesis by blast
    qed
  next
    assume "\<exists>ps ss. c # cs = ps @ u @ ss"
    then obtain ps ss where eq: "c # cs = ps @ u @ ss" by blast
    show "str_in u (c # cs)"
    proof (cases ps)
      case Nil
      with eq have "startswith u (c # cs)" by (auto simp: startswith_iff)
      then show ?thesis by simp
    next
      case (Cons a ps')
      with eq have "cs = ps' @ u @ ss" by simp
      then have "str_in u cs" using Cons.IH by blast
      then show ?thesis by simp
    qed
  qed
qed

lemma has_ingredient_iff:
  "has_ingredient us r \<longleftrightarrow> (\<exists>u \<in> set us. str_in u r \<or> str_in r u)"
  by (simp add: has_ingredient_def list_ex_iff)

lemma fold_split_step:
  "fold (split_step us) names (h, n) =
     (h @ filter (has_ingredient us) names, n @ filter (\<lambda>r. \<not> has_ingredient us r) names)"
  by (induction names arbitrary: h n) (simp_all add: split_step_def)

lemma split_ingredients_filter:
  "split_ingredients us names =
     (filter (has_ingredient us) names, filter (\<lambda>r. \<not> has_ingredient us r) names)"
  by (simp add: split_ingredients_def fold_split_step)

lemma fold_match_step:
  "fold (match_step us) rs acc =
     acc @ filter (\<lambda>s. 0 < match_percentage s \<or> length us = 0) (map (make_suggestion us) rs)"
  by (induction rs arbitrary: acc) (simp_all add: match_step_def Let_def)

lemma database_matching_filter:
  "database_matching us rs =
     filter (\<lambda>s. 0 < match_percentage s \<or> length us = 0) (map (make_suggestion us) rs)"
  by (simp add: database_matching_def fold_match_step)

lemma sort_reverse_sorted: "sorted (rev (map key (sort_reverse key xs)))"
  by (simp add: sort_reverse_def rev_map [symmetric])

lemma set_sort_reverse [simp]: "set (sort_reverse key xs) = set xs"
  by (simp add: sort_reverse_def)

lemma length_sort_reverse [simp]: "length (sort_reverse key xs) = length xs"
  by (simp add: sort_reverse_def)

lemma sort_key_const: "(\<forall>x \<in> set xs. key x = c) \<Longrightarrow> sort_key key xs = xs"
  by (induction xs) (auto simp: insort_is_Cons)

lemma sort_reverse_const: "(\<forall>x \<in> set xs. key x = c) \<Longrightarrow> sort_reverse key xs = xs"
proof -
  assume a: "\<forall>x \<in> set xs. key x = c"
  then have "sort_key key (rev xs) = rev xs" by (intro sort_key_const [of _ _ c]) simp
  then show ?thesis by (simp add: sort_reverse_def)
qed

lemma ingredients_have_eq:
  "ingredients_have (make_suggestion us r) = filter (has_ingredient us) (recipe_ingredients_names r)"
  by (simp add: make_suggestion_def split_ingredients_filter Let_def)

lemma ingredients_need_eq:
  "ingredients_need (make_suggestion us r) = filter (\<lambda>x. \<not> has_ingredient us x) (recipe_ingredients_names r)"
  by (simp add: make_suggestion_def split_ingredients_filter Let_def)

lemma match_percentage_eq:
  "match_percentage (make_suggestion us r) =
     match_pct (length (filter (has_ingredient us) (recipe_ingredients_names r)))
       (length (recipe_ingredients_names r))"
  by (simp add: make_suggestion_def split_ingredients_filter Let_def)

section \<open>Rounding to a double\<close>

lemma two_powi_nat: "0 \<le> n \<Longrightarrow> (2::rat) powi n = of_int (2 ^ nat n)"
  by (simp add: power_int_def)

lemma two_powi_Suc: "(2::rat) powi (n + 1) = 2 * 2 powi n"
  by (simp add: power_int_add)

lemma bitlen_powi_bounds:
  assumes "0 < p"
  shows "(2::rat) powi (bitlen p - 1) \<le> of_int p" and "of_int p < (2::rat) powi bitlen p"
proof -
  have b: "1 \<le> bitlen p" using assms by (simp add: bitlen_alt_def)
  have "2 ^ nat (bitlen p - 1) \<le> p" "p < 2 ^ nat (bitlen p)"
    using bitlen_bounds [OF assms] by auto
  then have "(of_int (2 ^ nat (bitlen p - 1)) :: rat) \<le> of_int p"
    and "(of_int p :: rat) < of_int (2 ^ nat (bitlen p))"
    by (simp_all only: of_int_le_iff of_int_less_iff)
  then show "(2::rat) powi (bitlen p - 1) \<le> of_int p" and "of_int p < (2::rat) powi bitlen p"
    using b by (simp_all add: two_powi_nat)
qed

lemma floor_log2_bounds:
  assumes "0 < x"
  shows "2 powi floor_log2 x \<le> x" and "x < 2 powi (floor_log2 x + 1)"
proof -
  obtain p q where pq: "quotient_of x = (p, q)" by (cases "quotient_of x")
  have q: "0 < q" using pq by (rule quotient_of_denom_pos)
  have x: "x = of_int p / of_int q" using pq by (rule quotient_of_div)
  have p: "0 < p" using assms q x by (simp add: zero_less_divide_iff)
  define d where "d = bitlen p - bitlen q"
  have fl: "floor_log2 x = (if 2 powi d \<le> x then d else d - 1)"
    by (simp add: floor_log2_def pq d_def Let_def)
  let ?q = "of_int q :: rat" and ?p = "of_int p :: rat"
  have q0: "0 < ?q" using q by simp
  have lo: "2 powi (d - 1) \<le> x"
  proof -
    have "2 powi (d - 1) * ?q \<le> 2 powi (d - 1) * 2 powi bitlen q"
      using bitlen_powi_bounds(2) [OF q] by (simp add: less_imp_le)
    also have "\<dots> = 2 powi (bitlen p - 1)"
      by (simp add: d_def power_int_add [symmetric])
    also have "\<dots> \<le> ?p" using bitlen_powi_bounds(1) [OF p] .
    finally show ?thesis using q0 by (simp add: x pos_le_divide_eq)
  qed
  have hi: "x < 2 powi (d + 1)"
  proof -
    have "?p < 2 powi bitlen p" using bitlen_powi_bounds(2) [OF p] .
    also have "\<dots> = 2 powi (d + 1) * 2 powi (bitlen q - 1)"
      by (simp add: d_def power_int_add [symmetric])
    also have "\<dots> \<le> 2 powi (d + 1) * ?q"
      using bitlen_powi_bounds(1) [OF q] by simp
    finally show ?thesis using q0 by (simp add: x pos_divide_less_eq)
  qed
  show "2 powi floor_log2 x \<le> x" using lo by (simp add: fl)
  show "x < 2 powi (floor_log2 x + 1)" using hi by (auto simp: fl not_le)
qed

lemma round_half_even_ge_floor: "\<lfloor>x\<rfloor> \<le> round_half_even x"
  by (simp add: round_half_even_def Let_def)

lemma round_half_even_le:
  assumes "x \<le> of_int m"
  shows "round_half_even x \<le> m"
proof (cases "x = of_int m")
  case True
  then show ?thesis by (simp add: round_half_even_def)
next
  case False
  with assms have "x < of_int m" by simp
  then have "\<lfloor>x\<rfloor> < m" by (simp add: floor_less_iff)
  moreover have "round_half_even x \<le> \<lfloor>x\<rfloor> + 1" by (simp add: round_half_even_def Let_def)
  ultimately show ?thesis by linarith
qed

lemma round_double_le_grid:
  assumes "0 < x" and "x \<le> of_int m * 2 powi (floor_log2 x - 52)"
  shows "round_double x \<le> of_int m * 2 powi (floor_log2 x - 52)"
proof -
  let ?e = "floor_log2 x - 52"
  have pos: "(0::rat) < 2 powi ?e" by simp
  have "x / 2 powi ?e \<le> of_int m" using assms(2) pos by (simp add: pos_divide_le_eq)
  then have "round_half_even (x / 2 powi ?e) \<le> m" by (rule round_half_even_le)
  then have "(of_int (round_half_even (x / 2 powi ?e)) :: rat) \<le> of_int m" by simp
  then have "(of_int (round_half_even (x / 2 powi ?e)) :: rat) * 2 powi ?e \<le> of_int m * 2 powi ?e"
    using pos by (simp only: mult_le_cancel_right_pos)
  then show ?thesis using assms(1) by (simp add: round_double_def Let_def)
qed

lemma round_double_le_next_power:
  assumes "0 < x"
  shows "round_double x \<le> 2 powi (floor_log2 x + 1)"
proof -
  have "x \<le> 2 powi (floor_log2 x + 1)" using floor_log2_bounds(2) [OF assms] by simp
  also have "(2::rat) powi (floor_log2 x + 1) = of_int (2 ^ 53) * 2 powi (floor_log2 x - 52)"
    by (simp add: power_int_diff power_int_add)
  finally have "round_double x \<le> of_int (2 ^ 53) * 2 powi (floor_log2 x - 52)"
    using assms by (intro round_double_le_grid)
  also have "\<dots> = 2 powi (floor_log2 x + 1)"
    by (simp add: power_int_diff power_int_add)
  finally show ?thesis .
qed

lemma round_double_pos:
  assumes "0 < x"
  shows "0 < round_double x"
proof -
  let ?e = "floor_log2 x - 52"
  have pos: "(0::rat) < 2 powi ?e" by simp
  have "2 powi floor_log2 x / 2 powi ?e \<le> x / 2 powi ?e"
    using floor_log2_bounds(1) [OF assms] pos by (intro divide_right_mono) simp_all
  moreover have "(2::rat) powi floor_log2 x / 2 powi ?e = of_int (2 ^ 52)"
    by (simp add: power_int_diff)
  ultimately have "of_int (2 ^ 52) \<le> x / 2 powi ?e" by simp
  then have "2 ^ 52 \<le> \<lfloor>x / 2 powi ?e\<rfloor>" by (simp only: le_floor_iff)
  moreover have "(0::int) < 2 ^ 52" by simp
  ultimately have "0 < round_half_even (x / 2 powi ?e)"
    using round_half_even_ge_floor [of "x / 2 powi ?e"] by linarith
  then have "(0::rat) < of_int (round_half_even (x / 2 powi ?e)) * 2 powi ?e"
    using pos by simp
  then show ?thesis using assms by (simp add: round_double_def Let_def)
qed


lemma round_double_1: "round_double 1 = 1"
  by code_simp

lemma round_double_100: "round_double 100 = 100"
  by code_simp

lemma floor_log2_le:
  assumes "0 < x" and "x < 2 powi n"
  shows "floor_log2 x < n"
proof (rule ccontr)
  assume "\<not> floor_log2 x < n"
  then have "n \<le> floor_log2 x" by simp
  then have "(2::rat) powi n \<le> 2 powi floor_log2 x" by (simp add: power_int_increasing)
  also have "\<dots> \<le> x" using floor_log2_bounds(1) [OF assms(1)] .
  finally show False using assms(2) by simp
qed

lemma round_double_le_1:
  assumes "0 < x" and "x \<le> 1"
  shows "round_double x \<le> 1"
proof (cases "x = 1")
  case True
  then show ?thesis by (simp add: round_double_1)
next
  case False
  with assms have "x < 2 powi 0" by simp
  then have "floor_log2 x < 0" using assms(1) by (rule floor_log2_le [rotated])
  then have "(2::rat) powi (floor_log2 x + 1) \<le> 2 powi 0"
    by (intro power_int_increasing) simp_all
  with round_double_le_next_power [OF assms(1)] show ?thesis by simp
qed

lemma round_double_le_100:
  assumes "0 < x" and "x \<le> 100"
  shows "round_double x \<le> 100"
proof -
  have "x < 2 powi 7" using assms(2) by simp
  then have l: "floor_log2 x < 7" using assms(1) by (rule floor_log2_le [rotated])
  show ?thesis
  proof (cases "floor_log2 x = 6")
    case True
    have g: "(100::rat) = of_int (100 * 2 ^ 46) * 2 powi (floor_log2 x - 52)"
      by (simp add: True)
    have "round_double x \<le> of_int (100 * 2 ^ 46) * 2 powi (floor_log2 x - 52)"
      using assms g by (intro round_double_le_grid) simp_all
    then show ?thesis using g by simp
  next
    case False
    with l have "floor_log2 x + 1 \<le> 6" by simp
    then have "(2::rat) powi (floor_log2 x + 1) \<le> 2 powi 6"
      by (intro power_int_increasing) simp_all
    with round_double_le_next_power [OF assms(1)] show ?thesis by simp
  qed
qed

lemma match_pct_le_100:
  assumes "k \<le> n"
  shows "match_pct k n \<le> 100"
proof (cases "0 < n \<and> 0 < k")
  case False
  then show ?thesis
    by (auto simp: match_pct_def truediv_def float_mul_def round_double_def int_of_float_def)
next
  case True
  let ?q = "of_int (int k) / of_int (int n) :: rat"
  have q: "0 < ?q" "?q \<le> 1" using True assms by simp_all
  have r: "0 < round_double ?q" "round_double ?q \<le> 1"
    using q by (simp_all add: round_double_pos round_double_le_1)
  then have "0 < round_double ?q * 100" "round_double ?q * 100 \<le> 100" by simp_all
  then have "round_double (round_double ?q * 100) \<le> 100" by (rule round_double_le_100)
  then have "\<lfloor>round_double (round_double ?q * 100)\<rfloor> \<le> 100"
    and "\<lceil>round_double (round_double ?q * 100)\<rceil> \<le> 100"
    by (simp_all add: floor_le_iff ceiling_le_iff)
  then show ?thesis using True
    by (simp add: match_pct_def truediv_def float_mul_def int_of_float_def)
qed

lemma match_pct_same: "0 < n \<Longrightarrow> match_pct n n = 100"
  by (simp add: match_pct_def truediv_def float_mul_def int_of_float_def round_double_1 round_double_100)

section \<open>The endpoint's result\<close>

lemma suggest_recipes_empty:
  "input_ingredients inp = [] \<Longrightarrow>
     suggest_recipes inp ai rs = Inl (HTTPException 400 ''Please provide at least one ingredient'')"
  by (simp add: suggest_recipes_def normalized_ingredients_def)

lemma suggest_recipes_nonempty:
  assumes "input_ingredients inp \<noteq> []"
  shows "\<exists>resp. suggest_recipes inp ai rs = Inr resp
           \<and> suggestions resp =
               take 10 (sort_reverse match_percentage
                          (database_matching (normalized_ingredients inp) rs))"
  using assms by (simp add: suggest_recipes_def normalized_ingredients_def Let_def)

lemma database_matching_nonempty:
  "us \<noteq> [] \<Longrightarrow>
     database_matching us rs =
       filter (\<lambda>s. 0 < match_percentage s) (map (make_suggestion us) rs)"
  by (simp add: database_matching_filter)

lemma output_member:
  assumes "input_ingredients inp \<noteq> []"
    and "s \<in> set (take 10 (sort_reverse match_percentage
                              (database_matching (normalized_ingredients inp) rs)))"
  shows "\<exists>recipe \<in> set rs. s = make_suggestion (normalized_ingredients inp) recipe
           \<and> 0 < match_percentage s"
proof -
  have ne: "normalized_ingredients inp \<noteq> []"
    using assms(1) by (simp add: normalized_ingredients_def)
  from assms(2) have "s \<in> set (database_matching (normalized_ingredients inp) rs)"
    by (auto dest: in_set_takeD)
  then show ?thesis by (auto simp: database_matching_nonempty [OF ne])
qed

lemma match_percentage_le_100: "match_percentage (make_suggestion us r) \<le> 100"
  by (simp add: match_percentage_eq match_pct_le_100)

lemma match_percentage_no_ingredients:
  "ingredients r = [] \<Longrightarrow> match_percentage (make_suggestion us r) = 0"
  by (simp add: match_percentage_eq recipe_ingredients_names_def match_pct_def)

section \<open>Duplicates and blank ingredients\<close>

lemma has_ingredient_set:
  "set us = set vs \<Longrightarrow> has_ingredient us r = has_ingredient vs r"
  by (simp add: has_ingredient_iff)

lemma make_suggestion_set:
  assumes "set us = set vs"
  shows "make_suggestion us r = make_suggestion vs r"
proof -
  have "has_ingredient us = has_ingredient vs"
    using has_ingredient_set [OF assms] by (intro ext)
  then show ?thesis by (simp add: make_suggestion_def split_ingredients_filter)
qed

lemma lower_char_idem: "lower_char (lower_char c) = lower_char c"
  by (auto simp: lower_char_def Let_def)

lemma lower_char_space: "isspace c \<Longrightarrow> lower_char c = c"
  by (auto simp: isspace_def lower_char_def Let_def)

lemma strip_lower_blank:
  assumes "\<forall>c \<in> set i. isspace c"
  shows "strip (lower i) = []"
proof -
  have l: "lower i = i" using assms by (simp add: lower_def lower_char_space map_idI)
  have d: "dropWhile isspace i = []" using assms by (simp add: dropWhile_eq_Nil_conv)
  show ?thesis unfolding strip_def l d by simp
qed

lemma str_in_Nil: "str_in [] r"
proof -
  have "r = [] @ [] @ r" by simp
  then show ?thesis unfolding str_in_iff by blast
qed

lemma has_ingredient_blank: "[] \<in> set us \<Longrightarrow> has_ingredient us r"
  unfolding has_ingredient_iff using str_in_Nil by blast

lemma normalized_blank:
  assumes "\<forall>i \<in> set (input_ingredients inp). \<forall>c \<in> set i. isspace c"
  shows "normalized_ingredients inp = replicate (length (input_ingredients inp)) []"
proof -
  have "map (\<lambda>ing. strip (lower ing)) (input_ingredients inp)
          = map (\<lambda>ing. []) (input_ingredients inp)"
    using assms by (intro map_cong) (simp_all add: strip_lower_blank)
  then show ?thesis by (simp add: normalized_ingredients_def map_replicate_const)
qed

lemma make_suggestion_blank:
  assumes "[] \<in> set us"
  shows "ingredients_have (make_suggestion us r) = recipe_ingredients_names r"
    and "ingredients_need (make_suggestion us r) = []"
    and "match_percentage (make_suggestion us r) = (if ingredients r = [] then 0 else 100)"
proof -
  have P: "has_ingredient us = (\<lambda>x. True)"
    using has_ingredient_blank [OF assms] by (intro ext) simp
  show "ingredients_have (make_suggestion us r) = recipe_ingredients_names r"
    by (simp add: ingredients_have_eq P)
  show "ingredients_need (make_suggestion us r) = []"
    by (simp add: ingredients_need_eq P)
  show "match_percentage (make_suggestion us r) = (if ingredients r = [] then 0 else 100)"
    by (simp add: match_percentage_eq P recipe_ingredients_names_def match_pct_same)
       (simp add: match_pct_def)
qed

lemma database_matching_blank:
  assumes "[] \<in> set us"
  shows "database_matching us rs = map (make_suggestion us) (filter (\<lambda>r. ingredients r \<noteq> []) rs)"
proof -
  have ne: "us \<noteq> []" using assms by auto
  have "filter (\<lambda>s. 0 < match_percentage s) (map (make_suggestion us) rs)
          = map (make_suggestion us) (filter (\<lambda>r. 0 < match_percentage (make_suggestion us r)) rs)"
    by (simp add: filter_map comp_def)
  also have "filter (\<lambda>r. 0 < match_percentage (make_suggestion us r)) rs
          = filter (\<lambda>r. ingredients r \<noteq> []) rs"
    by (intro filter_cong) (simp_all add: make_suggestion_blank(3) [OF assms])
  finally show ?thesis by (simp only: database_matching_nonempty [OF ne])
qed

section \<open>Claims\<close>

text \<open>
  C1, as stated, fails where a stored name has leading or trailing white space: the
  endpoint lower-cases a required name but does not trim it. For the stored name
  \<open>Salt\<close> followed by a space and the user ingredient \<open>sea salt\<close>, the normalized name
  \<open>salt\<close> occurs in \<open>sea salt\<close>, but the endpoint compares the untrimmed name, finds no
  containment either way, and places it in \<open>ingredients_need\<close>.
\<close>

theorem untrimmed_name_counterexample:
  "suggest_recipes (request [''sea salt'']) False [salted] =
     Inr \<lparr> suggestions =
             [\<lparr> suggestion_id = 5, suggestion_name = ''Salted'', suggestion_description = None,
                ingredients_have = [''sea salt''], ingredients_need = [''salt ''],
                match_percentage = 50, total_time = ''0 minutes'',
                difficulty = None, cuisine = None, dietary_tags = [] \<rparr>],
            message = ''Found 1 recipes matching your 1 ingredients!'',
            total_recipes_searched = 1 \<rparr>
   \<and> map ingredient_name (ingredients salted) = [''Salt '', ''Sea Salt'']
   \<and> strip (lower ''Salt '') = ''salt''
   \<and> normalized_ingredients (request [''sea salt'']) = [''sea salt'']
   \<and> ''sea salt'' = ''sea '' @ ''salt'' @ []"
  by code_simp

text \<open>
  C1, amended. For every candidate and every required ingredient name \<open>r\<close> of it,
  lower-cased but not trimmed, \<open>r\<close> is placed in \<open>ingredients_have\<close> if and only if there
  is a user ingredient whose normalized form \<open>u\<close> (lower-cased, then trimmed of leading and
  trailing white space) occurs in \<open>r\<close> or contains \<open>r\<close>; otherwise \<open>r\<close> is placed in
  \<open>ingredients_need\<close>. Both normalizations and the containment (\<open>r = ps @ u @ ss\<close>) are
  written out in the statement.
\<close>

theorem satisfied_iff_containment:
  assumes "ing \<in> set (ingredients recipe)"
    and "r = map lower_char (ingredient_name ing)"
    and "s = make_suggestion (normalized_ingredients inp) recipe"
  shows "(r \<in> set (ingredients_have s) \<longleftrightarrow>
            (\<exists>x \<in> set (input_ingredients inp). \<exists>u.
                u = rev (dropWhile isspace (rev (dropWhile isspace (map lower_char x))))
              \<and> ((\<exists>ps ss. r = ps @ u @ ss) \<or> (\<exists>ps ss. u = ps @ r @ ss))))
       \<and> (r \<in> set (ingredients_need s) \<longleftrightarrow>
            \<not> (\<exists>x \<in> set (input_ingredients inp). \<exists>u.
                u = rev (dropWhile isspace (rev (dropWhile isspace (map lower_char x))))
              \<and> ((\<exists>ps ss. r = ps @ u @ ss) \<or> (\<exists>ps ss. u = ps @ r @ ss))))"
proof -
  have rn: "r \<in> set (recipe_ingredients_names recipe)"
    using assms(1,2) by (auto simp: recipe_ingredients_names_def lower_def)
  have P: "has_ingredient (normalized_ingredients inp) r \<longleftrightarrow>
            (\<exists>x \<in> set (input_ingredients inp). \<exists>u.
                u = rev (dropWhile isspace (rev (dropWhile isspace (map lower_char x))))
              \<and> ((\<exists>ps ss. r = ps @ u @ ss) \<or> (\<exists>ps ss. u = ps @ r @ ss)))"
    by (simp add: has_ingredient_iff str_in_iff normalized_ingredients_def strip_def lower_def)
  have "r \<in> set (ingredients_have s) \<longleftrightarrow> has_ingredient (normalized_ingredients inp) r"
    using rn by (simp add: assms(3) ingredients_have_eq)
  moreover have "r \<in> set (ingredients_need s) \<longleftrightarrow> \<not> has_ingredient (normalized_ingredients inp) r"
    using rn by (simp add: assms(3) ingredients_need_eq)
  ultimately show ?thesis unfolding P by blast
qed

theorem satisfied_iff_containment_witness:
  "\<lparr> ingredient_id = 1, ingredient_name = ''Sea Salt'', ingredient_category = None \<rparr>
      \<in> set (ingredients brine)
   \<and> ''sea salt'' = map lower_char ''Sea Salt''
   \<and> ''sea salt'' \<in> set (ingredients_have
         (make_suggestion (normalized_ingredients (request ['' SALT ''])) brine))
   \<and> ''sea salt'' \<notin> set (ingredients_need
         (make_suggestion (normalized_ingredients (request ['' SALT ''])) brine))"
proof -
  let ?ing = "\<lparr> ingredient_id = 1, ingredient_name = ''Sea Salt'', ingredient_category = None \<rparr>"
  let ?inp = "request ['' SALT '']"
  have 1: "?ing \<in> set (ingredients brine)" by code_simp
  have 2: "''sea salt'' = map lower_char (ingredient_name ?ing)" by code_simp
  have t: "rev (dropWhile isspace (rev (dropWhile isspace (map lower_char '' SALT '')))) = ''salt''"
    by code_simp
  have "''sea salt'' = ''sea '' @ ''salt'' @ []" by simp
  then have c: "\<exists>ps ss. ''sea salt'' = ps @ ''salt'' @ ss" by blast
  have 3: "\<exists>x \<in> set (input_ingredients ?inp). \<exists>u.
                u = rev (dropWhile isspace (rev (dropWhile isspace (map lower_char x))))
              \<and> ((\<exists>ps ss. ''sea salt'' = ps @ u @ ss) \<or> (\<exists>ps ss. u = ps @ ''sea salt'' @ ss))"
  proof (rule bexI [of _ "'' SALT ''"])
    show "'' SALT '' \<in> set (input_ingredients ?inp)" by (simp add: request_def)
    show "\<exists>u. u = rev (dropWhile isspace (rev (dropWhile isspace (map lower_char '' SALT ''))))
              \<and> ((\<exists>ps ss. ''sea salt'' = ps @ u @ ss) \<or> (\<exists>ps ss. u = ps @ ''sea salt'' @ ss))"
      unfolding t using c by blast
  qed
  have 4: "''sea salt'' = map lower_char ''Sea Salt''" by code_simp
  from satisfied_iff_containment [OF 1 2 refl, of ?inp] 3 1 4 show ?thesis by blast
qed

text \<open>
  C2. The claim is that the percentage is \<open>\<lfloor>100 * have / total\<rfloor>\<close> in exact integer
  arithmetic. The endpoint computes \<open>int((have / total) * 100)\<close> on doubles: for a recipe of
  50 ingredients of which 29 are matched, \<open>29 / 50\<close> rounds to a double below 0.58, the
  product rounds to a double below 58, and the truncation gives 57, while
  \<open>\<lfloor>100 * 29 / 50\<rfloor> = 58\<close>.
\<close>

theorem match_percentage_float_truncation:
  "suggest_recipes (request [''a'']) False [fifty_recipe] =
     Inr \<lparr> suggestions = [make_suggestion [''a''] fifty_recipe],
            message = ''Found 1 recipes matching your 1 ingredients!'',
            total_recipes_searched = 1 \<rparr>
   \<and> length (ingredients fifty_recipe) = 50
   \<and> length (ingredients_have (make_suggestion [''a''] fifty_recipe)) = 29
   \<and> match_percentage (make_suggestion [''a''] fifty_recipe) = 57
   \<and> (100 * 29) div 50 = (58 :: int)"
  by code_simp

text \<open>
  C3. For every request with at least one ingredient and every candidate list, the
  endpoint returns, every returned suggestion has a percentage above 0 and at most 100,
  and the suggestion of a candidate without required ingredients is not returned.
\<close>

theorem suggestions_percentage_bounds:
  assumes "input_ingredients inp \<noteq> []"
  shows "\<exists>resp. suggest_recipes inp ai rs = Inr resp
           \<and> (\<forall>s \<in> set (suggestions resp). 0 < match_percentage s \<and> match_percentage s \<le> 100)
           \<and> (\<forall>r \<in> set rs. ingredients r = [] \<longrightarrow>
                 make_suggestion (normalized_ingredients inp) r \<notin> set (suggestions resp))"
proof -
  from suggest_recipes_nonempty [OF assms] obtain resp where
    r: "suggest_recipes inp ai rs = Inr resp"
    and s: "suggestions resp = take 10 (sort_reverse match_percentage
               (database_matching (normalized_ingredients inp) rs))"
    by blast
  have mem: "\<exists>recipe \<in> set rs. s = make_suggestion (normalized_ingredients inp) recipe
               \<and> 0 < match_percentage s" if "s \<in> set (suggestions resp)" for s
    using output_member [OF assms] that unfolding s by blast
  have "0 < match_percentage s \<and> match_percentage s \<le> 100" if "s \<in> set (suggestions resp)" for s
    using mem [OF that] match_percentage_le_100 by auto
  moreover have "make_suggestion (normalized_ingredients inp) r \<notin> set (suggestions resp)"
    if "ingredients r = []" for r
    using mem [of "make_suggestion (normalized_ingredients inp) r"]
      match_percentage_no_ingredients [OF that, of "normalized_ingredients inp"] by auto
  ultimately show ?thesis using r by blast
qed

theorem suggestions_percentage_bounds_witness:
  "input_ingredients (request [''Chicken '', ''garlic'']) \<noteq> []
   \<and> (\<exists>resp. suggest_recipes (request [''Chicken '', ''garlic'']) False
                 [thai_green_curry, plain_recipe 3 ''Water'' []] = Inr resp
         \<and> suggestions resp \<noteq> []
         \<and> (\<forall>s \<in> set (suggestions resp). 0 < match_percentage s \<and> match_percentage s \<le> 100)
         \<and> make_suggestion (normalized_ingredients (request [''Chicken '', ''garlic'']))
              (plain_recipe 3 ''Water'' []) \<notin> set (suggestions resp))"
proof -
  let ?inp = "request [''Chicken '', ''garlic'']"
  let ?rs = "[thai_green_curry, plain_recipe 3 ''Water'' []]"
  have ne: "input_ingredients ?inp \<noteq> []" by (simp add: request_def)
  have e: "ingredients (plain_recipe 3 ''Water'' []) = []" by (simp add: plain_recipe_def enumerate_eq_zip)
  have l: "length (case suggest_recipes ?inp False ?rs of Inl e \<Rightarrow> [] | Inr resp \<Rightarrow> suggestions resp) = 1"
    by code_simp
  from suggestions_percentage_bounds [OF ne, of False ?rs] obtain resp where
    r: "suggest_recipes ?inp False ?rs = Inr resp"
    and b: "\<forall>s \<in> set (suggestions resp). 0 < match_percentage s \<and> match_percentage s \<le> 100"
    and z: "\<forall>r \<in> set ?rs. ingredients r = [] \<longrightarrow>
              make_suggestion (normalized_ingredients ?inp) r \<notin> set (suggestions resp)"
    by blast
  from l r have "suggestions resp \<noteq> []" by auto
  moreover from z e have "make_suggestion (normalized_ingredients ?inp)
              (plain_recipe 3 ''Water'' []) \<notin> set (suggestions resp)" by simp
  ultimately show ?thesis using ne r b by blast
qed

text \<open>
  C4. The returned suggestions are at most 10 (the cap of the endpoint) and their
  percentages are in non-increasing order.
\<close>

theorem suggestions_capped_and_sorted:
  assumes "suggest_recipes inp ai rs = Inr resp"
  shows "length (suggestions resp) \<le> 10
       \<and> sorted_wrt (\<lambda>a b. match_percentage b \<le> match_percentage a) (suggestions resp)"
proof (cases "input_ingredients inp = []")
  case True
  then show ?thesis using assms by (simp add: suggest_recipes_empty)
next
  case False
  from suggest_recipes_nonempty [OF False, of ai rs] obtain resp' where
    "suggest_recipes inp ai rs = Inr resp'"
    and s': "suggestions resp' = take 10 (sort_reverse match_percentage
               (database_matching (normalized_ingredients inp) rs))"
    by blast
  with assms have "resp' = resp" by simp
  with s' have s: "suggestions resp = take 10 (sort_reverse match_percentage
               (database_matching (normalized_ingredients inp) rs))"
    by simp
  let ?xs = "sort_reverse match_percentage (database_matching (normalized_ingredients inp) rs)"
  have "sorted (rev (map match_percentage ?xs))" by (rule sort_reverse_sorted)
  then have "sorted_wrt (\<lambda>a b. b \<le> a) (map match_percentage ?xs)"
    by (simp only: sorted_wrt_rev)
  then have "sorted_wrt (\<lambda>a b. match_percentage b \<le> match_percentage a) ?xs"
    by (simp add: sorted_wrt_map)
  then have "sorted_wrt (\<lambda>a b. match_percentage b \<le> match_percentage a) (take 10 ?xs)"
    by (rule sorted_wrt_take)
  then show ?thesis by (simp add: s)
qed

theorem suggestions_capped_and_sorted_witness:
  "suggest_recipes (request [''salt'', ''salt'']) True eleven_recipes
     = Inr \<lparr> suggestions = map (make_suggestion [''salt'', ''salt'']) (take 10 eleven_recipes),
              message = ''Found 10 recipes matching your 2 ingredients!'',
              total_recipes_searched = 11 \<rparr>
   \<and> length (map (make_suggestion [''salt'', ''salt'']) (take 10 eleven_recipes)) \<le> 10
   \<and> sorted_wrt (\<lambda>a b. match_percentage b \<le> match_percentage a)
        (map (make_suggestion [''salt'', ''salt'']) (take 10 eleven_recipes))"
proof -
  have e: "suggest_recipes (request [''salt'', ''salt'']) True eleven_recipes
     = Inr \<lparr> suggestions = map (make_suggestion [''salt'', ''salt'']) (take 10 eleven_recipes),
              message = ''Found 10 recipes matching your 2 ingredients!'',
              total_recipes_searched = 11 \<rparr>"
    by code_simp
  from suggestions_capped_and_sorted [OF e] e show ?thesis by simp
qed

text \<open>
  C5. For every returned suggestion, \<open>ingredients_have\<close> and \<open>ingredients_need\<close> are the
  two complementary subsequences of the candidate's required names (those that satisfy the
  matching test, and those that do not), their lengths add up to the number of required
  ingredients, and no name is in both.
\<close>

theorem have_need_partition:
  assumes "suggest_recipes inp ai rs = Inr resp" and "s \<in> set (suggestions resp)"
  shows "\<exists>recipe \<in> set rs.
           s = make_suggestion (normalized_ingredients inp) recipe
         \<and> ingredients_have s =
             filter (has_ingredient (normalized_ingredients inp)) (recipe_ingredients_names recipe)
         \<and> ingredients_need s =
             filter (\<lambda>r. \<not> has_ingredient (normalized_ingredients inp) r)
               (recipe_ingredients_names recipe)
         \<and> length (ingredients_have s) + length (ingredients_need s) = length (ingredients recipe)
         \<and> set (ingredients_have s) \<inter> set (ingredients_need s) = {}"
proof (cases "input_ingredients inp = []")
  case True
  then show ?thesis using assms(1) by (simp add: suggest_recipes_empty)
next
  case False
  from suggest_recipes_nonempty [OF False, of ai rs] obtain resp' where
    "suggest_recipes inp ai rs = Inr resp'"
    and s': "suggestions resp' = take 10 (sort_reverse match_percentage
               (database_matching (normalized_ingredients inp) rs))"
    by blast
  with assms(1) have "resp' = resp" by simp
  with s' assms(2) have "s \<in> set (take 10 (sort_reverse match_percentage
               (database_matching (normalized_ingredients inp) rs)))"
    by simp
  from output_member [OF False this] obtain recipe where
    m: "recipe \<in> set rs" and eq: "s = make_suggestion (normalized_ingredients inp) recipe"
    by blast
  let ?P = "has_ingredient (normalized_ingredients inp)"
  let ?names = "recipe_ingredients_names recipe"
  have h: "ingredients_have s = filter ?P ?names"
    and n: "ingredients_need s = filter (\<lambda>r. \<not> ?P r) ?names"
    by (simp_all add: eq ingredients_have_eq ingredients_need_eq)
  have "length (filter ?P ?names) + length (filter (\<lambda>r. \<not> ?P r) ?names) = length ?names"
    by (rule sum_length_filter_compl)
  then have len: "length (ingredients_have s) + length (ingredients_need s) = length (ingredients recipe)"
    by (simp add: h n recipe_ingredients_names_def)
  have dis: "set (ingredients_have s) \<inter> set (ingredients_need s) = {}"
    by (auto simp: h n)
  from m eq h n len dis show ?thesis by blast
qed

theorem have_need_partition_witness:
  "suggest_recipes (request [''chicken'', ''garlic'']) False [thai_green_curry] =
      Inr \<lparr> suggestions = [make_suggestion [''chicken'', ''garlic''] thai_green_curry],
             message = ''Found 1 recipes matching your 2 ingredients!'',
             total_recipes_searched = 1 \<rparr>
   \<and> length (ingredients_have (make_suggestion [''chicken'', ''garlic''] thai_green_curry))
     + length (ingredients_need (make_suggestion [''chicken'', ''garlic''] thai_green_curry)) = 10
   \<and> set (ingredients_have (make_suggestion [''chicken'', ''garlic''] thai_green_curry))
     \<inter> set (ingredients_need (make_suggestion [''chicken'', ''garlic''] thai_green_curry)) = {}"
proof -
  let ?s = "make_suggestion [''chicken'', ''garlic''] thai_green_curry"
  let ?resp = "\<lparr> suggestions = [?s],
             message = ''Found 1 recipes matching your 2 ingredients!'',
             total_recipes_searched = 1 \<rparr>"
  have e: "suggest_recipes (request [''chicken'', ''garlic'']) False [thai_green_curry] = Inr ?resp"
    by code_simp
  have m: "?s \<in> set (suggestions ?resp)" by simp
  have l: "length (ingredients thai_green_curry) = 10" by code_simp
  from have_need_partition [OF e m] l e show ?thesis by auto
qed

text \<open>
  C6, as stated, fails for a missing list: a body without the field \<open>ingredients\<close> does
  not pass the validation against \<open>IngredientInput\<close>; the handler, and with it the check
  that raises the status 400, is not reached, and the answer has the status 422.
\<close>

theorem missing_list_counterexample:
  "post_suggest \<lparr> body_ingredients = None, body_dietary_restrictions = None,
                  body_cuisine_preference = None \<rparr> False [thai_green_curry]
     = Inl RequestValidationError
   \<and> response_status RequestValidationError = 422"
  by (simp add: post_suggest_def validate_IngredientInput_def response_status_def)

text \<open>
  C6, amended. A request without the ingredient list is rejected by the validation of
  the body with the status 422, and a request with an empty list by the handler with the
  status 400; both are client errors, and in both the result does not depend on the
  candidates (no matching is done). A request that passes the validation is answered by
  the handler. A request with ingredients whose every candidate scores 0 returns a
  response with no suggestion, not an error.
\<close>

theorem empty_or_missing_request_rejected:
  "(body_ingredients body = None \<longrightarrow>
      post_suggest body ai rs = Inl RequestValidationError
      \<and> response_status RequestValidationError = 422)
   \<and> (body_ingredients body = Some [] \<longrightarrow>
      post_suggest body ai rs = Inl (HTTPException 400 ''Please provide at least one ingredient'')
      \<and> response_status (HTTPException 400 ''Please provide at least one ingredient'') = 400)
   \<and> (validate_IngredientInput body = Inr inp \<longrightarrow>
      post_suggest body ai rs = suggest_recipes inp ai rs)
   \<and> (input_ingredients inp = [] \<longrightarrow>
      suggest_recipes inp ai rs = Inl (HTTPException 400 ''Please provide at least one ingredient''))
   \<and> (input_ingredients inp \<noteq> []
        \<and> (\<forall>r \<in> set rs. match_percentage (make_suggestion (normalized_ingredients inp) r) = 0)
      \<longrightarrow> (\<exists>resp. suggest_recipes inp ai rs = Inr resp \<and> suggestions resp = []))"
proof (intro conjI impI)
  assume "body_ingredients body = None"
  then show "post_suggest body ai rs = Inl RequestValidationError"
    by (simp add: post_suggest_def validate_IngredientInput_def)
next
  show "response_status RequestValidationError = 422" by (simp add: response_status_def)
next
  assume "body_ingredients body = Some []"
  then show "post_suggest body ai rs
      = Inl (HTTPException 400 ''Please provide at least one ingredient'')"
    by (simp add: post_suggest_def validate_IngredientInput_def suggest_recipes_empty)
next
  show "response_status (HTTPException 400 ''Please provide at least one ingredient'') = 400"
    by (simp add: response_status_def)
next
  assume "validate_IngredientInput body = Inr inp"
  then show "post_suggest body ai rs = suggest_recipes inp ai rs"
    by (simp add: post_suggest_def)
next
  assume "input_ingredients inp = []"
  then show "suggest_recipes inp ai rs = Inl (HTTPException 400 ''Please provide at least one ingredient'')"
    by (rule suggest_recipes_empty)
next
  assume a: "input_ingredients inp \<noteq> []
        \<and> (\<forall>r \<in> set rs. match_percentage (make_suggestion (normalized_ingredients inp) r) = 0)"
  then have ne: "normalized_ingredients inp \<noteq> []" by (simp add: normalized_ingredients_def)
  have "database_matching (normalized_ingredients inp) rs = []"
    using a by (simp add: database_matching_nonempty [OF ne] filter_empty_conv)
  then have "take 10 (sort_reverse match_percentage
               (database_matching (normalized_ingredients inp) rs)) = []"
    by (simp add: sort_reverse_def)
  with suggest_recipes_nonempty [of inp ai rs] a
  show "\<exists>resp. suggest_recipes inp ai rs = Inr resp \<and> suggestions resp = []" by auto
qed

theorem empty_or_missing_request_rejected_witness:
  "post_suggest \<lparr> body_ingredients = None, body_dietary_restrictions = None,
                  body_cuisine_preference = None \<rparr> False [thai_green_curry]
     = Inl RequestValidationError
   \<and> post_suggest \<lparr> body_ingredients = Some [], body_dietary_restrictions = None,
                    body_cuisine_preference = None \<rparr> False [thai_green_curry]
     = Inl (HTTPException 400 ''Please provide at least one ingredient'')
   \<and> (\<exists>resp. post_suggest \<lparr> body_ingredients = Some [''tofu''],
                  body_dietary_restrictions = None, body_cuisine_preference = None \<rparr>
                  False [thai_green_curry] = Inr resp
              \<and> suggestions resp = [])"
proof -
  let ?b0 = "\<lparr> body_ingredients = None, body_dietary_restrictions = None,
                  body_cuisine_preference = None \<rparr>"
  let ?b1 = "\<lparr> body_ingredients = Some [], body_dietary_restrictions = None,
                    body_cuisine_preference = None \<rparr>"
  let ?b2 = "\<lparr> body_ingredients = Some [''tofu''],
                  body_dietary_restrictions = None, body_cuisine_preference = None \<rparr>"
  let ?rs = "[thai_green_curry]"
  have v: "validate_IngredientInput ?b2 = Inr (request [''tofu''])"
    by (simp add: validate_IngredientInput_def request_def)
  have n: "input_ingredients (request [''tofu'']) \<noteq> []" by (simp add: request_def)
  have "match_percentage (make_suggestion (normalized_ingredients (request [''tofu''])) thai_green_curry) = 0"
    by code_simp
  then have z: "\<forall>r \<in> set ?rs.
      match_percentage (make_suggestion (normalized_ingredients (request [''tofu''])) r) = 0"
    by simp
  have a: "post_suggest ?b0 False ?rs = Inl RequestValidationError"
    using empty_or_missing_request_rejected [of ?b0 False ?rs] by simp
  have b: "post_suggest ?b1 False ?rs
             = Inl (HTTPException 400 ''Please provide at least one ingredient'')"
    using empty_or_missing_request_rejected [of ?b1 False ?rs] by simp
  from empty_or_missing_request_rejected [of ?b2 False ?rs "request [''tofu'']"] v n z
  have c: "\<exists>resp. post_suggest ?b2 False ?rs = Inr resp \<and> suggestions resp = []"
    by metis
  from a b c show ?thesis by blast
qed

text \<open>
  C7, as stated, fails: the names in \<open>ingredients_have\<close> and \<open>ingredients_need\<close> are
  the lower-cased names. For the ingredient names \<open>Sea Salt\<close> and \<open>Water\<close> the
  response holds \<open>sea salt\<close> and \<open>water\<close>.
\<close>

theorem original_casing_counterexample:
  "suggest_recipes (request [''salt'']) False [brine] =
     Inr \<lparr> suggestions =
             [\<lparr> suggestion_id = 7, suggestion_name = ''Brine'', suggestion_description = None,
                ingredients_have = [''sea salt''], ingredients_need = [''water''],
                match_percentage = 50, total_time = ''0 minutes'',
                difficulty = None, cuisine = None, dietary_tags = [] \<rparr>],
            message = ''Found 1 recipes matching your 1 ingredients!'',
            total_recipes_searched = 1 \<rparr>
   \<and> map ingredient_name (ingredients brine) = [''Sea Salt'', ''Water'']"
  by code_simp

text \<open>
  C7, amended. Every returned suggestion is the one built for a candidate of the list,
  and its \<open>ingredients_have\<close> and \<open>ingredients_need\<close> are the two complementary
  subsequences of that candidate's lower-cased ingredient names (the forms the comparison
  uses): together they are exactly these names, and lower-casing leaves each of them
  unchanged. The original casing is not kept.
\<close>

theorem names_lower_cased:
  assumes "suggest_recipes inp ai rs = Inr resp" and "s \<in> set (suggestions resp)"
  shows "\<exists>recipe \<in> set rs.
           s = make_suggestion (normalized_ingredients inp) recipe
         \<and> ingredients_have s =
             filter (has_ingredient (normalized_ingredients inp))
               (map (\<lambda>ing. map lower_char (ingredient_name ing)) (ingredients recipe))
         \<and> ingredients_need s =
             filter (\<lambda>r. \<not> has_ingredient (normalized_ingredients inp) r)
               (map (\<lambda>ing. map lower_char (ingredient_name ing)) (ingredients recipe))
         \<and> set (ingredients_have s) \<union> set (ingredients_need s)
             = (\<lambda>ing. map lower_char (ingredient_name ing)) ` set (ingredients recipe)
         \<and> (\<forall>x \<in> set (ingredients_have s) \<union> set (ingredients_need s). map lower_char x = x)"
proof (cases "input_ingredients inp = []")
  case True
  then show ?thesis using assms(1) by (simp add: suggest_recipes_empty)
next
  case False
  from suggest_recipes_nonempty [OF False, of ai rs] obtain resp' where
    "suggest_recipes inp ai rs = Inr resp'"
    and s': "suggestions resp' = take 10 (sort_reverse match_percentage
               (database_matching (normalized_ingredients inp) rs))"
    by blast
  with assms(1) have "resp' = resp" by simp
  with s' assms(2) have "s \<in> set (take 10 (sort_reverse match_percentage
               (database_matching (normalized_ingredients inp) rs)))"
    by simp
  from output_member [OF False this] obtain recipe where
    m: "recipe \<in> set rs" and eq: "s = make_suggestion (normalized_ingredients inp) recipe"
    by blast
  let ?P = "has_ingredient (normalized_ingredients inp)"
  let ?names = "map (\<lambda>ing. map lower_char (ingredient_name ing)) (ingredients recipe)"
  have nm: "recipe_ingredients_names recipe = ?names"
    by (simp add: recipe_ingredients_names_def lower_def)
  have h: "ingredients_have s = filter ?P ?names"
    and n: "ingredients_need s = filter (\<lambda>r. \<not> ?P r) ?names"
    by (simp_all add: eq ingredients_have_eq ingredients_need_eq nm)
  have "set (filter ?P ?names) \<union> set (filter (\<lambda>r. \<not> ?P r) ?names) = set ?names"
    by auto
  moreover have "set ?names = (\<lambda>ing. map lower_char (ingredient_name ing)) ` set (ingredients recipe)"
    by simp
  ultimately have u: "set (ingredients_have s) \<union> set (ingredients_need s)
             = (\<lambda>ing. map lower_char (ingredient_name ing)) ` set (ingredients recipe)"
    by (simp only: h n)
  have "\<forall>x \<in> (\<lambda>ing. map lower_char (ingredient_name ing)) ` set (ingredients recipe).
          map lower_char x = x"
    by (simp add: lower_char_idem)
  then have i: "\<forall>x \<in> set (ingredients_have s) \<union> set (ingredients_need s). map lower_char x = x"
    by (simp only: u)
  from m eq h n u i show ?thesis by blast
qed

theorem names_lower_cased_witness:
  "suggest_recipes (request [''salt'']) False [brine] =
     Inr \<lparr> suggestions = [make_suggestion [''salt''] brine],
            message = ''Found 1 recipes matching your 1 ingredients!'',
            total_recipes_searched = 1 \<rparr>
   \<and> map ingredient_name (ingredients brine) = [''Sea Salt'', ''Water'']
   \<and> ingredients_have (make_suggestion [''salt''] brine) = [''sea salt'']
   \<and> ingredients_need (make_suggestion [''salt''] brine) = [''water'']
   \<and> set (ingredients_have (make_suggestion [''salt''] brine))
       \<union> set (ingredients_need (make_suggestion [''salt''] brine))
       = (\<lambda>ing. map lower_char (ingredient_name ing)) ` set (ingredients brine)"
proof -
  let ?resp = "\<lparr> suggestions = [make_suggestion [''salt''] brine],
            message = ''Found 1 recipes matching your 1 ingredients!'',
            total_recipes_searched = 1 \<rparr>"
  have e: "suggest_recipes (request [''salt'']) False [brine] = Inr ?resp" by code_simp
  have m: "make_suggestion [''salt''] brine \<in> set (suggestions ?resp)" by simp
  have v: "map ingredient_name (ingredients brine) = [''Sea Salt'', ''Water'']"
    "ingredients_have (make_suggestion [''salt''] brine) = [''sea salt'']"
    "ingredients_need (make_suggestion [''salt''] brine) = [''water'']"
    by code_simp+
  from names_lower_cased [OF e m] obtain recipe where
    r: "recipe \<in> set [brine]"
    and u: "set (ingredients_have (make_suggestion [''salt''] brine))
              \<union> set (ingredients_need (make_suggestion [''salt''] brine))
            = (\<lambda>ing. map lower_char (ingredient_name ing)) ` set (ingredients recipe)"
    by blast
  from r have "recipe = brine" by simp
  with u e v show ?thesis by (simp only: simp_thms)
qed

text \<open>
  C8. Scenario A: for the user ingredients \<open>chicken\<close> and \<open>garlic\<close> and the ten
  ingredients of Thai Green Curry, exactly \<open>chicken breast\<close> is satisfied and the
  percentage is 10.
\<close>

theorem scenario_a:
  "suggest_recipes (request [''chicken'', ''garlic'']) False [thai_green_curry] =
     Inr \<lparr> suggestions =
             [\<lparr> suggestion_id = 2, suggestion_name = ''Thai Green Curry'',
                suggestion_description = None,
                ingredients_have = [''chicken breast''],
                ingredients_need =
                  [''coconut milk'', ''green curry paste'', ''bamboo shoots'', ''thai basil'',
                   ''fish sauce'', ''palm sugar'', ''lime leaves'', ''vegetable oil'',
                   ''jasmine rice''],
                match_percentage = 10, total_time = ''40 minutes'',
                difficulty = Some ''Easy'', cuisine = Some ''Thai'',
                dietary_tags = [''gluten-free''] \<rparr>],
           message = ''Found 1 recipes matching your 2 ingredients!'',
           total_recipes_searched = 1 \<rparr>
   \<and> map (\<lambda>ing. lower (ingredient_name ing)) (ingredients thai_green_curry) =
       [''coconut milk'', ''green curry paste'', ''chicken breast'', ''bamboo shoots'',
        ''thai basil'', ''fish sauce'', ''palm sugar'', ''lime leaves'', ''vegetable oil'',
        ''jasmine rice'']"
  by code_simp

text \<open>
  C9. Appending to the user's list an ingredient that already occurs in it leaves the
  returned suggestions unchanged.
\<close>

theorem duplicate_ingredient_no_effect:
  assumes "x \<in> set (input_ingredients inp)"
  shows "\<exists>r1 r2. suggest_recipes (inp\<lparr>input_ingredients := input_ingredients inp @ [x]\<rparr>) ai rs = Inr r1
           \<and> suggest_recipes inp ai rs = Inr r2
           \<and> suggestions r1 = suggestions r2"
proof -
  let ?inp' = "inp\<lparr>input_ingredients := input_ingredients inp @ [x]\<rparr>"
  have ne: "input_ingredients inp \<noteq> []" using assms by auto
  have ne': "input_ingredients ?inp' \<noteq> []" by simp
  have sets: "set (normalized_ingredients ?inp') = set (normalized_ingredients inp)"
    using assms by (auto simp: normalized_ingredients_def)
  have n: "normalized_ingredients inp \<noteq> []" "normalized_ingredients ?inp' \<noteq> []"
    using ne by (simp_all add: normalized_ingredients_def)
  have "map (make_suggestion (normalized_ingredients ?inp')) rs
          = map (make_suggestion (normalized_ingredients inp)) rs"
    using make_suggestion_set [OF sets] by simp
  then have "database_matching (normalized_ingredients ?inp') rs
          = database_matching (normalized_ingredients inp) rs"
    by (simp only: database_matching_nonempty [OF n(1)] database_matching_nonempty [OF n(2)])
  with suggest_recipes_nonempty [OF ne, of ai rs] suggest_recipes_nonempty [OF ne', of ai rs]
  show ?thesis by auto
qed

theorem duplicate_ingredient_no_effect_witness:
  "''chicken'' \<in> set (input_ingredients (request [''chicken'', ''garlic'']))
   \<and> (\<exists>r1 r2. suggest_recipes (request [''chicken'', ''garlic'', ''chicken'']) False [thai_green_curry] = Inr r1
           \<and> suggest_recipes (request [''chicken'', ''garlic'']) False [thai_green_curry] = Inr r2
           \<and> suggestions r1 = suggestions r2)"
proof -
  have m: "''chicken'' \<in> set (input_ingredients (request [''chicken'', ''garlic'']))"
    by (simp add: request_def)
  have u: "(request [''chicken'', ''garlic''])\<lparr>input_ingredients :=
              input_ingredients (request [''chicken'', ''garlic'']) @ [''chicken'']\<rparr>
           = request [''chicken'', ''garlic'', ''chicken'']"
    by (simp add: request_def)
  from duplicate_ingredient_no_effect [OF m, of False "[thai_green_curry]"] m show ?thesis
    unfolding u by blast
qed

text \<open>
  C10, as stated, fails: with eleven candidates of one ingredient each and the request
  \<open>["  "]\<close>, every candidate scores 100, but the response holds the first ten only; the
  eleventh is not in the output.
\<close>

theorem blank_request_counterexample:
  "suggest_recipes (request [''  '']) False eleven_recipes =
     Inr \<lparr> suggestions = map (make_suggestion [[]]) (take 10 eleven_recipes),
            message = ''Found 10 recipes matching your 1 ingredients!'',
            total_recipes_searched = 11 \<rparr>
   \<and> map suggestion_id (map (make_suggestion [[]]) (take 10 eleven_recipes))
       = [1, 2, 3, 4, 5, 6, 7, 8, 9, 10]
   \<and> recipe_id (eleven_recipes ! 10) = 11
   \<and> length (ingredients (eleven_recipes ! 10)) = 1
   \<and> match_percentage (make_suggestion [[]] (eleven_recipes ! 10)) = 100"
  by code_simp

text \<open>
  C10, amended. A non-empty request of blank strings is not rejected; its normalized
  list consists of empty strings; every candidate with at least one required ingredient
  has all its names in \<open>ingredients_have\<close> and the percentage 100; and the response holds
  the first 10 of these candidates, in the order of the candidate list.
\<close>

theorem blank_request_matches_all:
  assumes "input_ingredients inp \<noteq> []"
    and "\<forall>i \<in> set (input_ingredients inp). \<forall>c \<in> set i. isspace c"
  shows "normalized_ingredients inp = replicate (length (input_ingredients inp)) []
       \<and> (\<exists>resp. suggest_recipes inp ai rs = Inr resp
            \<and> suggestions resp =
                 take 10 (map (make_suggestion (normalized_ingredients inp))
                            (filter (\<lambda>r. ingredients r \<noteq> []) rs)))
       \<and> (\<forall>r \<in> set rs. ingredients r \<noteq> [] \<longrightarrow>
             match_percentage (make_suggestion (normalized_ingredients inp) r) = 100
           \<and> ingredients_have (make_suggestion (normalized_ingredients inp) r)
               = recipe_ingredients_names r
           \<and> ingredients_need (make_suggestion (normalized_ingredients inp) r) = [])"
proof -
  let ?us = "normalized_ingredients inp"
  have n: "?us = replicate (length (input_ingredients inp)) []"
    using assms(2) by (rule normalized_blank)
  have "0 < length (input_ingredients inp)" using assms(1) by simp
  then have b: "[] \<in> set ?us" by (simp add: n)
  let ?xs = "map (make_suggestion ?us) (filter (\<lambda>r. ingredients r \<noteq> []) rs)"
  have "\<forall>s \<in> set ?xs. match_percentage s = 100"
    by (simp add: make_suggestion_blank(3) [OF b])
  then have "sort_reverse match_percentage ?xs = ?xs" by (rule sort_reverse_const)
  then have "take 10 (sort_reverse match_percentage (database_matching ?us rs)) = take 10 ?xs"
    by (simp only: database_matching_blank [OF b])
  with suggest_recipes_nonempty [OF assms(1), of ai rs]
  have r: "\<exists>resp. suggest_recipes inp ai rs = Inr resp \<and> suggestions resp = take 10 ?xs"
    by auto
  have "\<forall>r \<in> set rs. ingredients r \<noteq> [] \<longrightarrow>
             match_percentage (make_suggestion ?us r) = 100
           \<and> ingredients_have (make_suggestion ?us r) = recipe_ingredients_names r
           \<and> ingredients_need (make_suggestion ?us r) = []"
    by (simp add: make_suggestion_blank [OF b])
  with n r show ?thesis by blast
qed

theorem blank_request_matches_all_witness:
  "input_ingredients (request [''  '', '' '']) \<noteq> []
   \<and> normalized_ingredients (request [''  '', '' '']) = [[], []]
   \<and> (\<exists>resp. suggest_recipes (request [''  '', '' '']) False [brine, plain_recipe 3 ''Water'' []]
                = Inr resp
            \<and> suggestions resp = [make_suggestion [[], []] brine])
   \<and> match_percentage (make_suggestion [[], []] brine) = 100"
proof -
  let ?inp = "request [''  '', '' '']"
  let ?rs = "[brine, plain_recipe 3 ''Water'' []]"
  have 1: "input_ingredients ?inp \<noteq> []" by (simp add: request_def)
  have 2: "\<forall>i \<in> set (input_ingredients ?inp). \<forall>c \<in> set i. isspace c"
    by (simp add: request_def isspace_def)
  have 3: "ingredients brine \<noteq> []" "ingredients (plain_recipe 3 ''Water'' []) = []"
    by (simp_all add: brine_def plain_recipe_def enumerate_eq_zip)
  have 4: "replicate (length (input_ingredients ?inp)) [] = [[], []]"
    by (simp add: request_def)
  from blank_request_matches_all [OF 1 2, of False ?rs]
  have a: "normalized_ingredients ?inp = replicate (length (input_ingredients ?inp)) []"
    and b: "\<exists>resp. suggest_recipes ?inp False ?rs = Inr resp
            \<and> suggestions resp =
                 take 10 (map (make_suggestion (normalized_ingredients ?inp))
                            (filter (\<lambda>r. ingredients r \<noteq> []) ?rs))"
    and c: "\<forall>r \<in> set ?rs. ingredients r \<noteq> [] \<longrightarrow>
             match_percentage (make_suggestion (normalized_ingredients ?inp) r) = 100
           \<and> ingredients_have (make_suggestion (normalized_ingredients ?inp) r)
               = recipe_ingredients_names r
           \<and> ingredients_need (make_suggestion (normalized_ingredients ?inp) r) = []"
    by blast+
  have N: "normalized_ingredients ?inp = [[], []]" using a 4 by simp
  have f: "filter (\<lambda>r. ingredients r \<noteq> []) ?rs = [brine]" using 3 by simp
  from b have b': "\<exists>resp. suggest_recipes ?inp False ?rs = Inr resp
            \<and> suggestions resp = [make_suggestion [[], []] brine]"
    unfolding N f by simp
  from c 3 have "match_percentage (make_suggestion (normalized_ingredients ?inp) brine) = 100"
    by simp
  then have c': "match_percentage (make_suggestion [[], []] brine) = 100" unfolding N .
  show ?thesis using 1 N b' c' by blast
qed

end
